theory Spec2Isabelle
  imports Complex_Main
begin

section \<open>Scalars\<close>

text \<open>
  The C++ scalar type \<open>double\<close> is embedded as the reals extended with the three special
  values of binary64 arithmetic: both infinities and NaN. The special values follow the
  IEEE 754 tables, so that \<open>log(0)\<close>, \<open>exp(-inf)\<close>, \<open>inf - inf\<close> and \<open>0 * inf\<close> are what the
  program computes. \<open>exp\<close> overflows: it returns positive infinity once the exact value
  reaches the threshold from which binary64 rounds to infinity. Otherwise arithmetic on
  finite values is exact: rounding to 53 bits, underflow, overflow of sums and products,
  and the sign of zero are not part of this embedding. Where a theorem below gives a
  finite value as a real expression, the program's value agrees with it up to rounding;
  the statements about errors, branches, special values and bounds do not depend on
  rounding.
\<close>

datatype dbl = Fin real | PInf | MInf | NaN

fun is_fin :: "dbl \<Rightarrow> bool" where
  "is_fin (Fin r) = True"
| "is_fin PInf = False"
| "is_fin MInf = False"
| "is_fin NaN = False"

fun dneg :: "dbl \<Rightarrow> dbl" where
  "dneg (Fin r) = Fin (- r)"
| "dneg PInf = MInf"
| "dneg MInf = PInf"
| "dneg NaN = NaN"

fun dadd :: "dbl \<Rightarrow> dbl \<Rightarrow> dbl" where
  "dadd (Fin a) (Fin b) = Fin (a + b)"
| "dadd (Fin a) PInf = PInf"
| "dadd (Fin a) MInf = MInf"
| "dadd PInf (Fin b) = PInf"
| "dadd PInf PInf = PInf"
| "dadd PInf MInf = NaN"
| "dadd MInf (Fin b) = MInf"
| "dadd MInf PInf = NaN"
| "dadd MInf MInf = MInf"
| "dadd NaN b = NaN"
| "dadd a NaN = NaN"

definition dsub :: "dbl \<Rightarrow> dbl \<Rightarrow> dbl" where
  "dsub a b = dadd a (dneg b)"

text \<open>The sign of an infinite product or quotient: positive, negative, or invalid.\<close>

definition signed_inf :: "real \<Rightarrow> dbl" where
  "signed_inf s = (if 0 < s then PInf else if s < 0 then MInf else NaN)"

fun dmul :: "dbl \<Rightarrow> dbl \<Rightarrow> dbl" where
  "dmul (Fin a) (Fin b) = Fin (a * b)"
| "dmul (Fin a) PInf = signed_inf a"
| "dmul (Fin a) MInf = signed_inf (- a)"
| "dmul PInf (Fin b) = signed_inf b"
| "dmul MInf (Fin b) = signed_inf (- b)"
| "dmul PInf PInf = PInf"
| "dmul PInf MInf = MInf"
| "dmul MInf PInf = MInf"
| "dmul MInf MInf = PInf"
| "dmul NaN b = NaN"
| "dmul a NaN = NaN"

fun ddiv :: "dbl \<Rightarrow> dbl \<Rightarrow> dbl" where
  "ddiv (Fin a) (Fin b) = (if b = 0 then signed_inf a else Fin (a / b))"
| "ddiv (Fin a) PInf = Fin 0"
| "ddiv (Fin a) MInf = Fin 0"
| "ddiv PInf (Fin b) = (if 0 \<le> b then PInf else MInf)"
| "ddiv MInf (Fin b) = (if 0 \<le> b then MInf else PInf)"
| "ddiv PInf PInf = NaN"
| "ddiv PInf MInf = NaN"
| "ddiv MInf PInf = NaN"
| "ddiv MInf MInf = NaN"
| "ddiv NaN b = NaN"
| "ddiv a NaN = NaN"

text \<open>
  The comparisons \<open><\<close>, \<open>==\<close> and \<open><=\<close> of the language: false whenever an operand is NaN.
\<close>

fun dless :: "dbl \<Rightarrow> dbl \<Rightarrow> bool" where
  "dless (Fin a) (Fin b) = (a < b)"
| "dless (Fin a) PInf = True"
| "dless MInf (Fin b) = True"
| "dless MInf PInf = True"
| "dless a b = False"

fun deq :: "dbl \<Rightarrow> dbl \<Rightarrow> bool" where
  "deq (Fin a) (Fin b) = (a = b)"
| "deq PInf PInf = True"
| "deq MInf MInf = True"
| "deq a b = False"

definition dle :: "dbl \<Rightarrow> dbl \<Rightarrow> bool" where
  "dle a b = (dless a b \<or> deq a b)"

text \<open>
  The least real that binary64 rounds to infinity: the midpoint between the largest
  finite value \<open>2^1024 - 2^971\<close> and \<open>2^1024\<close>.
\<close>

definition exp_overflow :: real where
  "exp_overflow = 2 ^ 1024 - 2 ^ 970"

fun dexp :: "dbl \<Rightarrow> dbl" where
  "dexp (Fin r) = (if exp r < exp_overflow then Fin (exp r) else PInf)"
| "dexp PInf = PInf"
| "dexp MInf = Fin 0"
| "dexp NaN = NaN"

fun dlog :: "dbl \<Rightarrow> dbl" where
  "dlog (Fin r) = (if 0 < r then Fin (ln r) else if r = 0 then MInf else NaN)"
| "dlog PInf = PInf"
| "dlog MInf = NaN"
| "dlog NaN = NaN"

fun dabs :: "dbl \<Rightarrow> dbl" where
  "dabs (Fin r) = Fin \<bar>r\<bar>"
| "dabs PInf = PInf"
| "dabs MInf = PInf"
| "dabs NaN = NaN"

section \<open>Errors\<close>

text \<open>
  \<open>BOOST_THROW_EXCEPTION(std::domain_error ...)\<close> and
  \<open>BOOST_THROW_EXCEPTION(std::invalid_argument ...)\<close> end the call; so does a failed
  validation check of a density, which reports a domain error through the policy and
  returns at once. Both are the left summand of the result.
\<close>

datatype error = domain_error | invalid_argument

section \<open>Special functions\<close>

subsection \<open>inv_logit\<close>

definition inv_logit :: "dbl \<Rightarrow> dbl" where
  "inv_logit a = ddiv (Fin 1) (dadd (Fin 1) (dexp (dneg a)))"

subsection \<open>log1p and log1m\<close>

definition log1p :: "dbl \<Rightarrow> error + dbl" where
  "log1p x =
     (if dless x (Fin (- 1)) then Inl domain_error
      else if dless (Fin (1 / 10 ^ 9)) x \<or> dless x (Fin (- (1 / 10 ^ 9)))
        then Inr (dlog (dadd (Fin 1) x))
      else if dless (Fin (1 / 10 ^ 16)) x \<or> dless x (Fin (- (1 / 10 ^ 16)))
        then Inr (dsub x (dmul (dmul (Fin (1 / 2)) x) x))
      else Inr x)"

definition log1m :: "dbl \<Rightarrow> error + dbl" where
  "log1m x = log1p (dneg x)"

subsection \<open>log_sum_exp\<close>

text \<open>
  The pairwise form. \<open>log1p\<close> may throw, so the result is a sum; the exception passes
  through unchanged.
\<close>

definition log_sum_exp :: "dbl \<Rightarrow> dbl \<Rightarrow> error + dbl" where
  "log_sum_exp a b =
     (if dless b a
      then (case log1p (dexp (dsub b a)) of Inl e \<Rightarrow> Inl e | Inr v \<Rightarrow> Inr (dadd a v))
      else (case log1p (dexp (dsub a b)) of Inl e \<Rightarrow> Inl e | Inr v \<Rightarrow> Inr (dadd b v)))"

text \<open>
  The form over a vector of doubles. Both loops visit \<open>x[0], x[1], ...\<close> in order; the
  first keeps the running maximum (starting from negative infinity), the second adds
  \<open>exp(x[ii] - max)\<close> for each entry that is \<open>!=\<close> negative infinity.
\<close>

definition lse_max :: "dbl list \<Rightarrow> dbl" where
  "lse_max x = fold (\<lambda>xi m. if dless m xi then xi else m) x MInf"

definition lse_sum :: "dbl list \<Rightarrow> dbl \<Rightarrow> dbl" where
  "lse_sum x m =
     fold (\<lambda>xi s. if \<not> deq xi MInf then dadd s (dexp (dsub xi m)) else s) x (Fin 0)"

definition log_sum_exp_vec :: "dbl list \<Rightarrow> dbl" where
  "log_sum_exp_vec x = (let m = lse_max x; s = lse_sum x m in dadd m (dlog s))"

text \<open>The finite entries of a vector, in order.\<close>

fun finite_part :: "dbl list \<Rightarrow> real list" where
  "finite_part [] = []"
| "finite_part (Fin r # xs) = r # finite_part xs"
| "finite_part (PInf # xs) = finite_part xs"
| "finite_part (MInf # xs) = finite_part xs"
| "finite_part (NaN # xs) = finite_part xs"

subsection \<open>softmax\<close>

text \<open>
  The helper \<open>maximum\<close>: throws on an empty vector, otherwise starts from \<open>x[0]\<close> and
  replaces the running value by \<open>x[i]\<close> whenever \<open>x[i] < max_x\<close>.
\<close>

fun maximum :: "dbl list \<Rightarrow> error + dbl" where
  "maximum [] = Inl invalid_argument"
| "maximum (x0 # xs) = Inr (fold (\<lambda>xi max_x. if dless xi max_x then xi else max_x) xs x0)"

text \<open>
  The first loop of \<open>softmax\<close> writes \<open>simplex[i] = exp(x[i] - max_x)\<close> and adds it to
  \<open>sum\<close> (here \<open>sum_acc\<close>); the second divides every \<open>simplex[i]\<close> by it. The output vector
  is passed in and returned updated.
\<close>

definition softmax_exponentiate :: "dbl list \<Rightarrow> dbl \<Rightarrow> dbl list \<Rightarrow> dbl list \<times> dbl" where
  "softmax_exponentiate x max_x simplex =
     fold (\<lambda>i (s, sum_acc). let s' = s[i := dexp (dsub (x ! i) max_x)] in (s', dadd sum_acc (s' ! i)))
       [0..<length x] (simplex, Fin 0)"

definition softmax_normalize :: "nat \<Rightarrow> dbl \<Rightarrow> dbl list \<Rightarrow> dbl list" where
  "softmax_normalize n sum_acc simplex = fold (\<lambda>i s. s[i := ddiv (s ! i) sum_acc]) [0..<n] simplex"

definition softmax :: "dbl list \<Rightarrow> dbl list \<Rightarrow> error + dbl list" where
  "softmax x simplex =
     (if length x \<noteq> length simplex then Inl invalid_argument
      else (case maximum x of
              Inl e \<Rightarrow> Inl e
            | Inr max_x \<Rightarrow>
                (case softmax_exponentiate x max_x simplex of
                   (simplex', sum_acc) \<Rightarrow> Inr (softmax_normalize (length x) sum_acc simplex'))))"

subsection \<open>The log-gamma function\<close>

text \<open>
  \<open>lgamma\<close> is the log-gamma function of the C and Boost libraries, the logarithm of the
  absolute value of the gamma function; it returns positive infinity at the poles
  \<open>0, -1, -2, ...\<close> and at both infinities. The gamma function is given here by the
  Euler-Gauss limit. Only the case distinction of \<open>lgamma\<close> is ever used below, never the
  value of the limit.
\<close>

definition gamma_approx :: "real \<Rightarrow> nat \<Rightarrow> real" where
  "gamma_approx x n = fact n * real n powr x / (\<Prod>k = 0..n. x + real k)"

definition lgamma_real :: "real \<Rightarrow> real" where
  "lgamma_real x = ln \<bar>lim (gamma_approx x)\<bar>"

fun lgamma :: "dbl \<Rightarrow> dbl" where
  "lgamma (Fin r) = (if r \<le> 0 \<and> r \<in> \<int> then PInf else Fin (lgamma_real r))"
| "lgamma PInf = PInf"
| "lgamma MInf = PInf"
| "lgamma NaN = NaN"

subsection \<open>binomial_coefficient_log\<close>

text \<open>
  The template instantiated at \<open>double\<close> for both arguments. The two return expressions
  are named \<open>bcl_lgamma_form\<close> and \<open>bcl_asymptotic_form\<close>; sums and differences associate
  to the left, as in the source.
\<close>

definition cutoff :: dbl where
  "cutoff = Fin 1000"

definition bcl_lgamma_form :: "dbl \<Rightarrow> dbl \<Rightarrow> dbl" where
  "bcl_lgamma_form N n =
     dsub (dsub (lgamma (dadd N (Fin 1))) (lgamma (dadd n (Fin 1))))
       (lgamma (dadd (dsub N n) (Fin 1)))"

definition bcl_asymptotic_form :: "dbl \<Rightarrow> dbl \<Rightarrow> dbl" where
  "bcl_asymptotic_form N n =
     dsub
       (dsub
         (dsub
           (dadd
             (dadd (dmul n (dlog (dsub N n)))
                   (dmul (dadd N (Fin (1 / 2))) (dlog (ddiv N (dsub N n)))))
             (ddiv (Fin 1) (dmul (Fin 12) N)))
           n)
         (ddiv (Fin 1) (dmul (Fin 12) (dsub N n))))
       (lgamma (dadd n (Fin 1)))"

definition binomial_coefficient_log :: "dbl \<Rightarrow> dbl \<Rightarrow> dbl" where
  "binomial_coefficient_log N n =
     (if dless N cutoff \<or> dless (dsub N n) cutoff
      then bcl_lgamma_form N n
      else bcl_asymptotic_form N n)"

text \<open>
  The template instantiated at \<open>int\<close> for both arguments, as \<open>binomial_log\<close> calls it.
  The comparisons and the arguments of \<open>lgamma\<close> and \<open>log\<close> are converted to \<open>double\<close>;
  \<open>N - n\<close>, \<open>N/(N-n)\<close>, \<open>12*N\<close>, \<open>1/(12*N)\<close> and \<open>1/(12*(N-n))\<close> are computed in \<open>int\<close>, where
  division truncates towards zero. The type \<open>int\<close> is embedded as the integers: \<open>12*N\<close>
  is exact up to \<open>N = 178956970\<close> and overflows (undefined behaviour) beyond. The
  divisors are at least 1000 in the branch that divides, so no division by zero occurs.
\<close>

definition c_div :: "int \<Rightarrow> int \<Rightarrow> int" where
  "c_div a b = sgn a * sgn b * (\<bar>a\<bar> div \<bar>b\<bar>)"

definition of_c_int :: "int \<Rightarrow> dbl" where
  "of_c_int i = Fin (real_of_int i)"

definition binomial_coefficient_log_int :: "int \<Rightarrow> int \<Rightarrow> dbl" where
  "binomial_coefficient_log_int N n =
     (if dless (of_c_int N) cutoff \<or> dless (of_c_int (N - n)) cutoff
      then dsub (dsub (lgamma (dadd (of_c_int N) (Fin 1))) (lgamma (dadd (of_c_int n) (Fin 1))))
             (lgamma (dadd (of_c_int (N - n)) (Fin 1)))
      else dsub
             (dsub
               (dsub
                 (dadd
                   (dadd (dmul (of_c_int n) (dlog (of_c_int (N - n))))
                         (dmul (dadd (of_c_int N) (Fin (1 / 2)))
                               (dlog (of_c_int (c_div N (N - n))))))
                   (of_c_int (c_div 1 (12 * N))))
                 (of_c_int n))
               (of_c_int (c_div 1 (12 * (N - n)))))
             (lgamma (dadd (of_c_int n) (Fin 1))))"

subsection \<open>multiply_log and lmgamma\<close>

definition multiply_log :: "dbl \<Rightarrow> dbl \<Rightarrow> dbl" where
  "multiply_log a b = (if deq b (Fin 0) \<and> deq a (Fin 0) then Fin 0 else dmul a (dlog b))"

definition LOG_PI_OVER_FOUR :: dbl where
  "LOG_PI_OVER_FOUR = Fin (ln pi / 4)"

text \<open>
  The dimension \<open>k\<close> is an \<open>unsigned int\<close>: a natural number below \<open>2^32\<close>, with \<open>k - 1\<close> and
  \<open>k * (k - 1)\<close> computed modulo \<open>2^32\<close>. The loop runs \<open>j\<close> from 1 to \<open>k\<close>; it ends for
  every \<open>k\<close> below \<open>2^32 - 1\<close>, the only value at which \<open>j <= k\<close> cannot become false.
\<close>

definition unsigned_pred :: "nat \<Rightarrow> nat" where
  "unsigned_pred k = (k + 2 ^ 32 - 1) mod 2 ^ 32"

definition lmgamma :: "nat \<Rightarrow> dbl \<Rightarrow> dbl" where
  "lmgamma k x =
     fold (\<lambda>j result. dadd result (lgamma (dadd x (ddiv (dsub (Fin 1) (Fin (real j))) (Fin 2)))))
       [1..<Suc k]
       (dmul (Fin (real ((k * unsigned_pred k) mod 2 ^ 32))) LOG_PI_OVER_FOUR)"

section \<open>Validation and the proportionality flag\<close>

text \<open>
  Modelled from the spec: the validation checks \<open>check_bounded\<close>, \<open>check_nonnegative\<close>,
  \<open>check_finite\<close>, \<open>check_greater_or_equal\<close> and \<open>check_size_match\<close> of
  \<open>stan/maths/error_handling.hpp\<close> and \<open>stan/maths/matrix_error_handling.hpp\<close> are not among
  the sources. Each returns true iff its predicate holds (bounds are inclusive; a
  comparison with NaN is false); on failure the policy reports a domain error and the
  caller returns at once, which the callers below render as \<open>Inl domain_error\<close>.
\<close>

definition check_bounded_int :: "int \<Rightarrow> int \<Rightarrow> int \<Rightarrow> bool" where
  "check_bounded_int x low high = (low \<le> x \<and> x \<le> high)"

definition check_nonnegative_int :: "int \<Rightarrow> bool" where
  "check_nonnegative_int x = (0 \<le> x)"

definition check_finite :: "dbl \<Rightarrow> bool" where
  "check_finite x = is_fin x"

definition check_bounded :: "dbl \<Rightarrow> dbl \<Rightarrow> dbl \<Rightarrow> bool" where
  "check_bounded x low high = (dle low x \<and> dle x high)"

definition check_greater_or_equal :: "dbl \<Rightarrow> dbl \<Rightarrow> bool" where
  "check_greater_or_equal x low = dle low x"

definition check_size_match :: "nat \<Rightarrow> nat \<Rightarrow> bool" where
  "check_size_match i j = (i = j)"

text \<open>
  Modelled from the spec: the trait \<open>include_summand\<close> of \<open>stan/prob/traits.hpp\<close> is not
  among the sources. A summand is computed when the proportionality flag is off, or
  when at least one of the argument types listed with it is differentiable. The list
  holds, for each listed type, whether it is a differentiable scalar type.
\<close>

definition include_summand :: "bool \<Rightarrow> bool list \<Rightarrow> bool" where
  "include_summand propto is_var = (if propto then list_ex id is_var else True)"

section \<open>Densities\<close>

subsection \<open>binomial_log\<close>

text \<open>
  The arguments: the template flag \<open>propto\<close>, whether \<open>T_prob\<close> is a differentiable type,
  then \<open>n\<close>, \<open>N\<close> and the value of \<open>theta\<close>.
\<close>

definition binomial_log :: "bool \<Rightarrow> bool \<Rightarrow> int \<Rightarrow> int \<Rightarrow> dbl \<Rightarrow> error + dbl" where
  "binomial_log propto T_prob n N theta =
     (if \<not> check_bounded_int n 0 N then Inl domain_error
      else if \<not> check_nonnegative_int N then Inl domain_error
      else if \<not> check_finite theta then Inl domain_error
      else if \<not> check_bounded theta (Fin 0) (Fin 1) then Inl domain_error
      else
        let lp = Fin 0;
            lp = (if include_summand propto []
                  then dadd lp (binomial_coefficient_log_int N n) else lp)
        in if include_summand propto [T_prob]
           then (case log1m theta of
                   Inl e \<Rightarrow> Inl e
                 | Inr l \<Rightarrow>
                     Inr (dadd lp (dadd (multiply_log (of_c_int n) theta)
                                        (dmul (of_c_int (N - n)) l))))
           else Inr lp)"

subsection \<open>wishart_log\<close>

text \<open>A dynamically sized matrix: its dimensions and its coefficients.\<close>

record matrix =
  rows :: nat
  cols :: nat
  coeff :: "nat \<Rightarrow> nat \<Rightarrow> dbl"

definition identity :: "nat \<Rightarrow> matrix" where
  "identity k = \<lparr>rows = k, cols = k, coeff = (\<lambda>i j. if i = j then Fin 1 else Fin 0)\<rparr>"

text \<open>
  The matrix kernels \<open>determinant\<close>, \<open>inverse\<close>, \<open>multiply\<close> and \<open>trace\<close> belong to the
  linear-algebra collaborator and are not among the sources: \<open>wishart_log\<close> takes them as
  a parameter.
\<close>

record linalg =
  determinant :: "matrix \<Rightarrow> dbl"
  inverse_mat :: "matrix \<Rightarrow> matrix"
  multiply :: "matrix \<Rightarrow> matrix \<Rightarrow> matrix"
  trace :: "matrix \<Rightarrow> dbl"

text \<open>
  Modelled from the spec: the constant \<open>NEG_LOG_TWO_OVER_TWO\<close> of \<open>stan/prob/constants.hpp\<close>
  is not among the sources; the spec gives it as \<open>- ln 2 / 2\<close>.
\<close>

definition NEG_LOG_TWO_OVER_TWO :: dbl where
  "NEG_LOG_TWO_OVER_TWO = Fin (- ln 2 / 2)"

text \<open>
  The arguments: the kernels, the template flag \<open>propto\<close>, whether \<open>T_y\<close>, \<open>T_dof\<close> and
  \<open>T_scale\<close> are differentiable types, then \<open>W\<close>, \<open>nu\<close> and \<open>S\<close>. The local \<open>k\<close> is an
  \<open>unsigned int\<close>, so \<open>k - 1\<close> and \<open>k + 1\<close> are computed modulo \<open>2^32\<close>; \<open>k + 1.0\<close> is a
  \<open>double\<close>.
\<close>

definition wishart_log ::
  "linalg \<Rightarrow> bool \<Rightarrow> bool \<Rightarrow> bool \<Rightarrow> bool \<Rightarrow> matrix \<Rightarrow> dbl \<Rightarrow> matrix \<Rightarrow> error + dbl" where
  "wishart_log la propto T_y T_dof T_scale W nu S =
     (let k = rows W mod 2 ^ 32 in
      if \<not> check_greater_or_equal nu (Fin (real (unsigned_pred k))) then Inl domain_error
      else if \<not> check_size_match (rows W) (cols W) then Inl domain_error
      else if \<not> check_size_match (rows S) (cols S) then Inl domain_error
      else if \<not> check_size_match (rows W) (rows S) then Inl domain_error
      else
        let lp = Fin 0;
            lp = (if include_summand propto [T_dof]
                  then dadd lp (dmul (dmul nu (Fin (real k))) NEG_LOG_TWO_OVER_TWO) else lp);
            lp = (if include_summand propto [T_dof]
                  then dsub lp (lmgamma k (dmul (Fin (1 / 2)) nu)) else lp);
            lp = (if include_summand propto [T_dof, T_scale]
                  then dsub lp (multiply_log (dmul (Fin (1 / 2)) nu) (determinant la S)) else lp);
            lp = (if include_summand propto [T_scale, T_y]
                  then dsub lp
                         (dmul (Fin (1 / 2))
                            (dabs (trace la (multiply la (inverse_mat la S) W))))
                  else lp);
            lp = (if include_summand propto [T_y, T_dof]
                  then (if \<not> deq nu (Fin (real ((k + 1) mod 2 ^ 32)))
                        then dadd lp
                               (multiply_log
                                  (dmul (Fin (1 / 2)) (dsub nu (dadd (Fin (real k)) (Fin 1))))
                                  (determinant la W))
                        else lp)
                  else lp)
        in Inr lp)"

text \<open>
  The kernels in exact arithmetic, for closed instances: the trace as the sum of the
  diagonal, the usual product, the determinant by cofactor expansion along the first
  row, and the inverse as the adjugate divided by the determinant.
\<close>

definition minor_coeff :: "(nat \<Rightarrow> nat \<Rightarrow> dbl) \<Rightarrow> nat \<Rightarrow> nat \<Rightarrow> nat \<Rightarrow> nat \<Rightarrow> dbl" where
  "minor_coeff a i j = (\<lambda>r c. a (if r < i then r else Suc r) (if c < j then c else Suc c))"

primrec det_n :: "nat \<Rightarrow> (nat \<Rightarrow> nat \<Rightarrow> dbl) \<Rightarrow> dbl" where
  "det_n 0 a = Fin 1"
| "det_n (Suc k) a =
     fold (\<lambda>j s. dadd s (dmul (dmul (Fin ((- 1) ^ j)) (a 0 j)) (det_n k (minor_coeff a 0 j))))
       [0..<Suc k] (Fin 0)"

definition exact_linalg :: linalg where
  "exact_linalg =
     \<lparr>determinant = (\<lambda>M. det_n (rows M) (coeff M)),
      inverse_mat = (\<lambda>M. \<lparr>rows = rows M, cols = cols M,
         coeff = (\<lambda>i j. ddiv (dmul (Fin ((- 1) ^ (i + j)))
                                  (det_n (rows M - 1) (minor_coeff (coeff M) j i)))
                             (det_n (rows M) (coeff M)))\<rparr>),
      multiply = (\<lambda>A B. \<lparr>rows = rows A, cols = cols B,
         coeff = (\<lambda>i j. fold (\<lambda>l s. dadd s (dmul (coeff A i l) (coeff B l j)))
                           [0..<cols A] (Fin 0))\<rparr>),
      trace = (\<lambda>M. fold (\<lambda>i s. dadd s (coeff M i i)) [0..<rows M] (Fin 0))\<rparr>"

section \<open>Properties\<close>

subsection \<open>Overflow of the exponential\<close>

lemma exp_overflow_bounds: "1 < exp_overflow \<and> exp_overflow \<le> 2 ^ 1024"
proof -
  have "(2::real) ^ 970 * 2 \<le> 2 ^ 1024"
    using power_increasing [of 971 1024 "2::real"] by simp
  moreover have "(1::real) < 2 ^ 970"
    by (intro one_less_power) simp_all
  ultimately have "(1::real) < 2 ^ 1024 - 2 ^ 970" "(2::real) ^ 1024 - 2 ^ 970 \<le> 2 ^ 1024"
    by linarith+
  then show ?thesis
    unfolding exp_overflow_def by simp
qed

lemma exp_overflow_gt_one: "1 < exp_overflow"
  using exp_overflow_bounds by simp

lemma dexp_nonpos: "r \<le> 0 \<Longrightarrow> dexp (Fin r) = Fin (exp r)"
proof -
  assume "r \<le> 0"
  then have "exp r \<le> 1"
    by simp
  then have "exp r < exp_overflow"
    using exp_overflow_gt_one by linarith
  then show ?thesis
    by simp
qed

lemma exp_1000_overflows: "exp_overflow \<le> exp 1000"
proof -
  have "(5 / 2 :: real) \<le> exp 1"
    using exp_lower_Taylor_quadratic [of "1::real"] by simp
  then have "(5 / 2 :: real) ^ 1000 \<le> exp 1 ^ 1000"
    by (intro power_mono) simp_all
  also have "exp (1::real) ^ 1000 = exp 1000"
    using exp_of_nat_mult [of 1000 "1::real"] by simp
  finally have "(5 / 2 :: real) ^ 1000 \<le> exp 1000" .
  moreover have "(2::real) ^ 1024 \<le> (5 / 2) ^ 1000"
  proof -
    have "(2::real) ^ 5 \<le> (5 / 2) ^ 4"
      by (simp add: power_divide)
    then have "((2::real) ^ 5) ^ 250 \<le> ((5 / 2) ^ 4) ^ 250"
      by (intro power_mono) simp_all
    then have "(2::real) ^ 1250 \<le> (5 / 2) ^ 1000"
      by (simp add: power_mult [symmetric])
    moreover have "(2::real) ^ 1024 \<le> 2 ^ 1250"
      by (intro power_increasing) simp_all
    ultimately show ?thesis
      by linarith
  qed
  moreover have "exp_overflow \<le> 2 ^ 1024"
    using exp_overflow_bounds by simp
  ultimately show ?thesis
    by linarith
qed

lemma dexp_1000: "dexp (Fin 1000) = PInf"
  using exp_1000_overflows by simp

lemma dadd_zero_left: "dadd (Fin 0) y = y"
  by (cases y) simp_all

subsection \<open>inv_logit\<close>

text \<open>
  Claim C9, amended. For every finite argument, \<open>inv_logit\<close> returns a finite value in the
  closed interval from 0 to 1; the value is strictly positive whenever \<open>exp (- a)\<close> does
  not overflow.
\<close>

theorem C9_inv_logit_closed_unit_interval:
  "is_fin (inv_logit (Fin a))
   \<and> dle (Fin 0) (inv_logit (Fin a)) \<and> dle (inv_logit (Fin a)) (Fin 1)
   \<and> (is_fin (dexp (Fin (- a))) \<longrightarrow> dless (Fin 0) (inv_logit (Fin a)))"
proof (cases "exp (- a) < exp_overflow")
  case True
  have pos: "0 < 1 + exp (- a)"
    by (simp add: add_pos_pos)
  then have val: "inv_logit (Fin a) = Fin (1 / (1 + exp (- a)))"
    using True by (simp add: inv_logit_def)
  have "1 \<le> 1 + exp (- a)"
    by simp
  then have "1 / (1 + exp (- a)) \<le> 1"
    using pos by (simp add: divide_simps)
  moreover have "0 < 1 / (1 + exp (- a))"
    using pos by simp
  ultimately show ?thesis
    using val by (simp add: dle_def)
next
  case False
  then have "inv_logit (Fin a) = Fin 0"
    by (simp add: inv_logit_def)
  then show ?thesis
    using False by (simp add: dle_def)
qed

theorem C9_inv_logit_closed_unit_interval_witness:
  "inv_logit (Fin 0) = Fin (1 / 2)
   \<and> is_fin (inv_logit (Fin 0))
   \<and> dle (Fin 0) (inv_logit (Fin 0)) \<and> dle (inv_logit (Fin 0)) (Fin 1)
   \<and> is_fin (dexp (Fin (- 0))) \<and> dless (Fin 0) (inv_logit (Fin 0))"
  using C9_inv_logit_closed_unit_interval [of 0] exp_overflow_gt_one
  by (simp add: inv_logit_def)

text \<open>
  At \<open>a = -1000\<close> the exponential \<open>exp 1000\<close> overflows to positive infinity, the sum
  \<open>1 + inf\<close> is infinite and the quotient \<open>1 / inf\<close> is 0: the result is not strictly
  positive.
\<close>

theorem C9_overflow_counterexample:
  "dexp (dneg (Fin (- 1000))) = PInf
   \<and> inv_logit (Fin (- 1000)) = Fin 0
   \<and> \<not> dless (Fin 0) (inv_logit (Fin (- 1000)))"
  using dexp_1000 by (simp add: inv_logit_def del: dexp.simps(1))

subsection \<open>log1p and log1m\<close>

lemma log1p_error_iff: "(log1p x = Inl domain_error) = dless x (Fin (- 1))"
  by (simp add: log1p_def)

lemma log1p_returns: "\<not> dless x (Fin (- 1)) \<Longrightarrow> \<exists>y. log1p x = Inr y"
  by (simp add: log1p_def)

lemma dless_neg_swap: "dless (dneg x) (Fin (- c)) = dless (Fin c) x"
  by (cases x) auto

text \<open>
  Claim C6. \<open>log1p x\<close> raises a domain error exactly when \<open>x < -1\<close>, and \<open>log1m x\<close>
  exactly when \<open>x > 1\<close>; every other argument gives a result. For a finite argument
  \<open>r\<close> in the domain the result is \<open>log (1 + r)\<close> (for \<open>log1m\<close>: \<open>log (1 - r)\<close>) when
  \<open>\<bar>r\<bar> > 1e-9\<close>, the second-order Taylor polynomial \<open>r - r\<^sup>2/2\<close> (for \<open>log1m\<close>:
  \<open>- r - r\<^sup>2/2\<close>) when \<open>1e-16 < \<bar>r\<bar> \<le> 1e-9\<close>, and the argument itself (for \<open>log1m\<close>:
  its negation) when \<open>\<bar>r\<bar> \<le> 1e-16\<close>.
\<close>

theorem C6_log1p_log1m_domain:
  "(log1p x = Inl domain_error) = dless x (Fin (- 1))
   \<and> (log1m x = Inl domain_error) = dless (Fin 1) x
   \<and> (\<not> dless x (Fin (- 1)) \<longrightarrow> (\<exists>y. log1p x = Inr y))
   \<and> (\<not> dless (Fin 1) x \<longrightarrow> (\<exists>y. log1m x = Inr y))
   \<and> (- 1 \<le> r \<and> 1 / 10 ^ 9 < \<bar>r\<bar> \<longrightarrow> log1p (Fin r) = Inr (dlog (Fin (1 + r))))
   \<and> (1 / 10 ^ 16 < \<bar>r\<bar> \<and> \<bar>r\<bar> \<le> 1 / 10 ^ 9 \<longrightarrow> log1p (Fin r) = Inr (Fin (r - r * r / 2)))
   \<and> (\<bar>r\<bar> \<le> 1 / 10 ^ 16 \<longrightarrow> log1p (Fin r) = Inr (Fin r))
   \<and> (r \<le> 1 \<and> 1 / 10 ^ 9 < \<bar>r\<bar> \<longrightarrow> log1m (Fin r) = Inr (dlog (Fin (1 - r))))
   \<and> (1 / 10 ^ 16 < \<bar>r\<bar> \<and> \<bar>r\<bar> \<le> 1 / 10 ^ 9 \<longrightarrow> log1m (Fin r) = Inr (Fin (- r - r * r / 2)))
   \<and> (\<bar>r\<bar> \<le> 1 / 10 ^ 16 \<longrightarrow> log1m (Fin r) = Inr (Fin (- r)))"
proof -
  have e1: "(log1p x = Inl domain_error) = dless x (Fin (- 1))"
    by (rule log1p_error_iff)
  have e2: "(log1m x = Inl domain_error) = dless (Fin 1) x"
    unfolding log1m_def log1p_error_iff by (rule dless_neg_swap)
  have r1: "\<not> dless x (Fin (- 1)) \<longrightarrow> (\<exists>y. log1p x = Inr y)"
    by (simp add: log1p_returns)
  have r2: "\<not> dless (Fin 1) x \<longrightarrow> (\<exists>y. log1m x = Inr y)"
    unfolding log1m_def using log1p_returns [of "dneg x"] by (simp add: dless_neg_swap)
  have small: "(1::real) / 10 ^ 16 < 1 / 10 ^ 9"
    by simp
  have p1: "- 1 \<le> r \<and> 1 / 10 ^ 9 < \<bar>r\<bar> \<longrightarrow> log1p (Fin r) = Inr (dlog (Fin (1 + r)))"
    by (auto simp: log1p_def)
  have p2: "1 / 10 ^ 16 < \<bar>r\<bar> \<and> \<bar>r\<bar> \<le> 1 / 10 ^ 9 \<longrightarrow> log1p (Fin r) = Inr (Fin (r - r * r / 2))"
    by (auto simp: log1p_def dsub_def)
  have p3: "\<bar>r\<bar> \<le> 1 / 10 ^ 16 \<longrightarrow> log1p (Fin r) = Inr (Fin r)"
    using small by (auto simp: log1p_def)
  have m1: "r \<le> 1 \<and> 1 / 10 ^ 9 < \<bar>r\<bar> \<longrightarrow> log1m (Fin r) = Inr (dlog (Fin (1 - r)))"
    by (auto simp: log1m_def log1p_def)
  have m2: "1 / 10 ^ 16 < \<bar>r\<bar> \<and> \<bar>r\<bar> \<le> 1 / 10 ^ 9 \<longrightarrow> log1m (Fin r) = Inr (Fin (- r - r * r / 2))"
    by (auto simp: log1m_def log1p_def dsub_def)
  have m3: "\<bar>r\<bar> \<le> 1 / 10 ^ 16 \<longrightarrow> log1m (Fin r) = Inr (Fin (- r))"
    using small by (auto simp: log1m_def log1p_def)
  from e1 e2 r1 r2 p1 p2 p3 m1 m2 m3 show ?thesis
    by blast
qed

theorem C6_log1p_log1m_domain_witness:
  "log1p (Fin (- 2)) = Inl domain_error
   \<and> log1m (Fin 2) = Inl domain_error
   \<and> (\<exists>y. log1p (Fin (- 1)) = Inr y)
   \<and> (\<exists>y. log1m (Fin 1) = Inr y)
   \<and> log1p (Fin (1 / 2)) = Inr (Fin (ln (3 / 2)))
   \<and> log1p (Fin (- 1)) = Inr MInf
   \<and> log1p (Fin (1 / 10 ^ 10)) = Inr (Fin (1 / 10 ^ 10 - 1 / 10 ^ 10 * (1 / 10 ^ 10) / 2))
   \<and> log1p (Fin 0) = Inr (Fin 0)
   \<and> log1m (Fin (1 / 2)) = Inr (Fin (ln (1 / 2)))
   \<and> log1m (Fin 1) = Inr MInf
   \<and> log1m (Fin (1 / 10 ^ 10)) = Inr (Fin (- (1 / 10 ^ 10) - 1 / 10 ^ 10 * (1 / 10 ^ 10) / 2))
   \<and> log1m (Fin 0) = Inr (Fin 0)"
  using C6_log1p_log1m_domain [of "Fin (- 2)" "1 / 2"]
    C6_log1p_log1m_domain [of "Fin 2" "- 1"]
    C6_log1p_log1m_domain [of "Fin (- 1)" "1 / 10 ^ 10"]
    C6_log1p_log1m_domain [of "Fin 1" "0"]
    C6_log1p_log1m_domain [of "Fin 1" "1"]
  by simp

subsection \<open>log_sum_exp\<close>

text \<open>
  Claim C7. The pairwise \<open>log_sum_exp\<close> returns the same result for \<open>(a, b)\<close> and
  \<open>(b, a)\<close>, for all arguments, and \<open>log_sum_exp a (-\<infinity>)\<close> returns \<open>a\<close> for every
  finite \<open>a\<close>.
\<close>

theorem C7_log_sum_exp_commutative_identity:
  "log_sum_exp a b = log_sum_exp b a \<and> log_sum_exp (Fin r) MInf = Inr (Fin r)"
proof
  show "log_sum_exp a b = log_sum_exp b a"
  proof (cases "dless b a")
    case True
    then have "\<not> dless a b"
      by (cases a; cases b) auto
    with True show ?thesis
      by (simp add: log_sum_exp_def)
  next
    case nba: False
    show ?thesis
    proof (cases "dless a b")
      case True
      with nba show ?thesis
        by (simp add: log_sum_exp_def)
    next
      case False
      with nba have "a = b \<or> a = NaN \<or> b = NaN"
        by (cases a; cases b) auto
      then show ?thesis
      proof (elim disjE)
        assume "a = b"
        then show ?thesis by simp
      next
        assume "a = NaN"
        then show ?thesis
          by (cases b) (simp_all add: log_sum_exp_def dsub_def log1p_def)
      next
        assume "b = NaN"
        then show ?thesis
          by (cases a) (simp_all add: log_sum_exp_def dsub_def log1p_def)
      qed
    qed
  qed
next
  show "log_sum_exp (Fin r) MInf = Inr (Fin r)"
    by (simp add: log_sum_exp_def dsub_def log1p_def)
qed

lemma Max_insert_max:
  "finite S \<Longrightarrow> Max (insert (max a r) S) = Max (insert a (insert (r::real) S))"
  by (cases "S = {}") (auto simp: max.assoc)

lemma lse_max_loop_fin:
  "\<forall>e\<in>set x. e \<noteq> NaN \<and> e \<noteq> PInf \<Longrightarrow>
   fold (\<lambda>xi m. if dless m xi then xi else m) x (Fin a) = Fin (Max (insert a (set (finite_part x))))"
proof (induction x arbitrary: a)
  case Nil
  then show ?case by simp
next
  case (Cons e x)
  show ?case
  proof (cases e)
    case (Fin r)
    have "fold (\<lambda>xi m. if dless m xi then xi else m) (e # x) (Fin a)
        = fold (\<lambda>xi m. if dless m xi then xi else m) x (Fin (max a r))"
      using Fin by (simp add: max_def)
    also have "\<dots> = Fin (Max (insert (max a r) (set (finite_part x))))"
      using Cons by simp
    finally show ?thesis
      using Fin by (simp add: Max_insert_max)
  next
    case MInf
    then show ?thesis using Cons by simp
  qed (use Cons in auto)
qed

lemma lse_max_value:
  assumes "\<forall>e\<in>set x. e \<noteq> NaN \<and> e \<noteq> PInf"
  shows "lse_max x = (if finite_part x = [] then MInf else Fin (Max (set (finite_part x))))"
  unfolding lse_max_def using assms
proof (induction x)
  case Nil
  then show ?case by simp
next
  case (Cons e x)
  show ?case
  proof (cases e)
    case (Fin r)
    then show ?thesis
      using Cons.prems lse_max_loop_fin [of x r] by simp
  next
    case MInf
    then show ?thesis using Cons by simp
  qed (use Cons in auto)
qed

lemma lse_sum_loop:
  "\<forall>e\<in>set x. e \<noteq> NaN \<and> e \<noteq> PInf \<Longrightarrow> \<forall>r\<in>set (finite_part x). r \<le> M \<Longrightarrow>
   fold (\<lambda>xi s. if \<not> deq xi MInf then dadd s (dexp (dsub xi (Fin M))) else s) x (Fin s)
     = Fin (s + (\<Sum>r\<leftarrow>finite_part x. exp (r - M)))"
proof (induction x arbitrary: s)
  case Nil
  then show ?case by simp
next
  case (Cons e x)
  show ?case
  proof (cases e)
    case (Fin r)
    with Cons.prems have "r - M \<le> 0"
      by simp
    then have "dexp (dsub (Fin r) (Fin M)) = Fin (exp (r - M))"
      using dexp_nonpos [of "r - M"] by (simp add: dsub_def del: dexp.simps(1))
    then show ?thesis
      using Fin Cons by (simp add: add.assoc del: dexp.simps(1))
  next
    case MInf
    then show ?thesis using Cons by simp
  qed (use Cons in auto)
qed

lemma lse_sum_no_finite:
  "\<forall>e\<in>set x. e \<noteq> NaN \<and> e \<noteq> PInf \<Longrightarrow> finite_part x = [] \<Longrightarrow>
   fold (\<lambda>xi s. if \<not> deq xi MInf then dadd s (dexp (dsub xi m)) else s) x s = s"
proof (induction x arbitrary: s)
  case Nil
  then show ?case by simp
next
  case (Cons e x)
  then show ?case by (cases e) auto
qed

lemma sum_list_exp_pos: "fs \<noteq> [] \<Longrightarrow> 0 < (\<Sum>r\<leftarrow>fs. exp (r - (M::real)))"
proof (cases fs)
  case Nil
  moreover assume "fs \<noteq> []"
  ultimately show ?thesis by simp
next
  case (Cons a gs)
  have "0 \<le> (\<Sum>r\<leftarrow>gs. exp (r - M))"
    by (rule sum_list_nonneg) auto
  moreover have "0 < exp (a - M)"
    by simp
  ultimately show ?thesis
    using Cons by (simp add: add_pos_nonneg)
qed

lemma sum_list_exp_shift: "exp M * (\<Sum>r\<leftarrow>fs. exp (r - (M::real))) = (\<Sum>r\<leftarrow>fs. exp r)"
  by (induction fs) (auto simp: algebra_simps exp_diff)

lemma finite_part_mem: "Fin r \<in> set x \<Longrightarrow> r \<in> set (finite_part x)"
  by (induction x rule: finite_part.induct) auto

text \<open>
  Claim C8. For every vector whose entries are finite or negative infinity, the n-ary
  \<open>log_sum_exp\<close> returns negative infinity when no entry is finite, and otherwise
  \<open>M + log (\<Sum> exp (x\<^sub>i - M))\<close>, where \<open>M\<close> is the greatest entry and the sum ranges over
  the finite entries only; this equals \<open>log (\<Sum> exp x\<^sub>i)\<close>. The first loop returns \<open>M\<close>, every
  argument the second loop passes to \<open>exp\<close> is finite and at most 0, and the result is
  never NaN.
\<close>

theorem C8_log_sum_exp_vec:
  assumes "\<forall>e\<in>set x. e \<noteq> NaN \<and> e \<noteq> PInf"
  shows "(finite_part x = [] \<longrightarrow> log_sum_exp_vec x = MInf)
    \<and> (finite_part x \<noteq> [] \<longrightarrow>
          lse_max x = Fin (Max (set (finite_part x)))
        \<and> log_sum_exp_vec x =
            Fin (Max (set (finite_part x))
                 + ln (\<Sum>r\<leftarrow>finite_part x. exp (r - Max (set (finite_part x)))))
        \<and> log_sum_exp_vec x = Fin (ln (\<Sum>r\<leftarrow>finite_part x. exp r)))
    \<and> (\<forall>e\<in>set x. e \<noteq> MInf \<longrightarrow> (\<exists>d. dsub e (lse_max x) = Fin d \<and> d \<le> 0))
    \<and> log_sum_exp_vec x \<noteq> NaN"
proof -
  let ?fs = "finite_part x"
  let ?M = "Max (set ?fs)"
  let ?S = "\<Sum>r\<leftarrow>?fs. exp (r - ?M)"
  have none: "log_sum_exp_vec x = MInf" if "?fs = []"
    using that assms lse_max_value [OF assms] lse_sum_no_finite [OF assms that]
    by (simp add: log_sum_exp_vec_def lse_sum_def)
  have mx: "lse_max x = Fin ?M" if "?fs \<noteq> []"
    using that lse_max_value [OF assms] by simp
  have val: "log_sum_exp_vec x = Fin (?M + ln ?S)" if "?fs \<noteq> []"
  proof -
    have "\<forall>r\<in>set ?fs. r \<le> ?M"
      by simp
    then show ?thesis
      using that mx [OF that] lse_sum_loop [OF assms, of ?M 0] sum_list_exp_pos [OF that, of ?M]
      by (simp add: log_sum_exp_vec_def lse_sum_def)
  qed
  have math: "?M + ln ?S = ln (\<Sum>r\<leftarrow>?fs. exp r)" if "?fs \<noteq> []"
  proof -
    have "ln (exp ?M * ?S) = ln (exp ?M) + ln ?S"
      using sum_list_exp_pos [OF that, of ?M] by (simp add: ln_mult)
    then show ?thesis
      by (simp add: sum_list_exp_shift)
  qed
  have args: "\<exists>d. dsub e (lse_max x) = Fin d \<and> d \<le> 0" if "e \<in> set x" "e \<noteq> MInf" for e
  proof -
    have "e \<noteq> NaN" "e \<noteq> PInf"
      using that assms by auto
    with that(2) obtain r where e: "e = Fin r"
      by (metis dbl.exhaust)
    with that have r: "r \<in> set ?fs"
      by (simp add: finite_part_mem)
    then have "?fs \<noteq> []"
      by auto
    then have "lse_max x = Fin ?M"
      by (rule mx)
    moreover have "r \<le> ?M"
      using r by simp
    ultimately show ?thesis
      using e by (simp add: dsub_def)
  qed
  have nn: "log_sum_exp_vec x \<noteq> NaN"
    using none val by (cases "?fs = []") auto
  from none mx val math args nn show ?thesis
    by auto
qed

theorem C8_log_sum_exp_vec_witness:
  "log_sum_exp_vec [MInf, MInf] = MInf
   \<and> lse_max [Fin 1000, MInf, Fin 1001] = Fin 1001
   \<and> log_sum_exp_vec [Fin 1000, MInf, Fin 1001] = Fin (1001 + ln (exp (- 1) + 1))
   \<and> dsub (Fin 1000) (lse_max [Fin 1000, MInf, Fin 1001]) = Fin (- 1)
   \<and> log_sum_exp_vec [Fin 1000, MInf, Fin 1001] \<noteq> NaN"
  using C8_log_sum_exp_vec [of "[MInf, MInf]"] C8_log_sum_exp_vec [of "[Fin 1000, MInf, Fin 1001]"]
  by (simp add: dsub_def)

subsection \<open>softmax\<close>

text \<open>On finite entries the helper \<open>maximum\<close> returns the least entry.\<close>

lemma Min_insert_min:
  "finite S \<Longrightarrow> Min (insert (min a r) S) = Min (insert a (insert (r::real) S))"
  by (cases "S = {}") (auto simp: min.assoc)

lemma fold_least_loop:
  "fold (\<lambda>xi max_x. if dless xi max_x then xi else max_x) (map Fin rs) (Fin a)
     = Fin (Min (insert a (set rs)))"
proof (induction rs arbitrary: a)
  case Nil
  then show ?case by simp
next
  case (Cons r rs)
  have "fold (\<lambda>xi max_x. if dless xi max_x then xi else max_x) (map Fin (r # rs)) (Fin a)
      = fold (\<lambda>xi max_x. if dless xi max_x then xi else max_x) (map Fin rs) (Fin (min a r))"
    by (simp add: min_def)
  also have "\<dots> = Fin (Min (insert (min a r) (set rs)))"
    by (rule Cons.IH)
  finally show ?case
    by (simp add: Min_insert_min)
qed

lemma maximum_returns_least:
  "maximum (map Fin (r # rs)) = Inr (Fin (Min (set (r # rs))))"
  by (simp add: fold_least_loop)

text \<open>
  Claim C1. At \<open>x = [0, 1000]\<close> the helper \<open>maximum\<close> returns 0, the least entry, so the
  first loop of \<open>softmax\<close> exponentiates \<open>x[1] - 0 = 1000\<close>, a positive argument: \<open>exp 1000\<close>
  overflows to positive infinity, and \<open>softmax\<close> writes \<open>[0, NaN]\<close>.
\<close>

theorem C1_softmax_subtracts_least:
  "maximum [Fin 0, Fin 1000] = Inr (Fin 0)
   \<and> dsub ([Fin 0, Fin 1000] ! 1) (Fin 0) = Fin 1000
   \<and> dless (Fin 0) (Fin 1000)
   \<and> softmax_exponentiate [Fin 0, Fin 1000] (Fin 0) [Fin 0, Fin 0] = ([Fin 1, PInf], PInf)
   \<and> softmax [Fin 0, Fin 1000] [Fin 0, Fin 0] = Inr [Fin 0, NaN]"
  using dexp_1000 dexp_nonpos [of 0]
  by (simp add: softmax_def softmax_normalize_def softmax_exponentiate_def dsub_def upt_rec
      del: dexp.simps(1))

subsection \<open>binomial_coefficient_log\<close>

text \<open>
  Claim C3, amended. \<open>binomial_coefficient_log\<close> returns the log-gamma form
  \<open>lgamma(N+1) - lgamma(n+1) - lgamma(N-n+1)\<close> when \<open>N < 1000\<close> or \<open>N - n < 1000\<close>, and the
  asymptotic expansion when both \<open>N \<ge> 1000\<close> and \<open>N - n \<ge> 1000\<close>.
\<close>

theorem C3_binomial_coefficient_log_branches:
  "(dless N cutoff \<or> dless (dsub N n) cutoff
      \<longrightarrow> binomial_coefficient_log N n = bcl_lgamma_form N n)
   \<and> (dle cutoff N \<and> dle cutoff (dsub N n)
      \<longrightarrow> binomial_coefficient_log N n = bcl_asymptotic_form N n)
   \<and> (a < 1000 \<or> a - b < 1000
      \<longrightarrow> binomial_coefficient_log (Fin a) (Fin b)
          = dsub (dsub (lgamma (Fin (a + 1))) (lgamma (Fin (b + 1)))) (lgamma (Fin (a - b + 1))))
   \<and> (1000 \<le> a \<and> 1000 \<le> a - b
      \<longrightarrow> binomial_coefficient_log (Fin a) (Fin b)
          = dsub (Fin (b * ln (a - b) + (a + 1 / 2) * ln (a / (a - b)) + 1 / (12 * a) - b
                       - 1 / (12 * (a - b))))
              (lgamma (Fin (b + 1))))"
proof -
  have g1: "dless N cutoff \<or> dless (dsub N n) cutoff
      \<longrightarrow> binomial_coefficient_log N n = bcl_lgamma_form N n"
    by (simp add: binomial_coefficient_log_def)
  have excl: "dle cutoff x \<Longrightarrow> \<not> dless x cutoff" for x
    by (cases x) (auto simp: dle_def cutoff_def)
  have g2: "dle cutoff N \<and> dle cutoff (dsub N n)
      \<longrightarrow> binomial_coefficient_log N n = bcl_asymptotic_form N n"
    using excl by (auto simp: binomial_coefficient_log_def)
  have r1: "a < 1000 \<or> a - b < 1000
      \<longrightarrow> binomial_coefficient_log (Fin a) (Fin b)
          = dsub (dsub (lgamma (Fin (a + 1))) (lgamma (Fin (b + 1)))) (lgamma (Fin (a - b + 1)))"
    by (auto simp: binomial_coefficient_log_def bcl_lgamma_form_def cutoff_def dsub_def)
  have r2: "binomial_coefficient_log (Fin a) (Fin b)
          = dsub (Fin (b * ln (a - b) + (a + 1 / 2) * ln (a / (a - b)) + 1 / (12 * a) - b
                       - 1 / (12 * (a - b))))
              (lgamma (Fin (b + 1)))" if "1000 \<le> a" "1000 \<le> a - b"
  proof -
    have "0 < a" "0 < a - b" "0 < a / (a - b)"
      using that by auto
    then show ?thesis
      using that
      by (simp add: binomial_coefficient_log_def bcl_asymptotic_form_def cutoff_def dsub_def)
  qed
  from g1 g2 r1 r2 show ?thesis
    by blast
qed

theorem C3_binomial_coefficient_log_branches_witness:
  "binomial_coefficient_log (Fin 2000) (Fin 1500) = bcl_lgamma_form (Fin 2000) (Fin 1500)
   \<and> binomial_coefficient_log (Fin 3000) (Fin 1000) = bcl_asymptotic_form (Fin 3000) (Fin 1000)
   \<and> binomial_coefficient_log (Fin 10) (Fin 3)
       = Fin (lgamma_real 11 - lgamma_real 4 - lgamma_real 8)
   \<and> binomial_coefficient_log (Fin 3000) (Fin 1000)
       = Fin (1000 * ln 2000 + (3000 + 1 / 2) * ln (3 / 2) + 1 / 36000 - 1000 - 1 / 24000
              - lgamma_real 1001)"
proof -
  have a: "binomial_coefficient_log (Fin 2000) (Fin 1500) = bcl_lgamma_form (Fin 2000) (Fin 1500)"
    using C3_binomial_coefficient_log_branches [of "Fin 2000" "Fin 1500" 10 3]
    by (simp add: cutoff_def dsub_def)
  have b: "binomial_coefficient_log (Fin 3000) (Fin 1000) = bcl_asymptotic_form (Fin 3000) (Fin 1000)"
    using C3_binomial_coefficient_log_branches [of "Fin 3000" "Fin 1000" 10 3]
    by (simp add: cutoff_def dsub_def dle_def)
  have c: "binomial_coefficient_log (Fin 10) (Fin 3)
       = Fin (lgamma_real 11 - lgamma_real 4 - lgamma_real 8)"
    using C3_binomial_coefficient_log_branches [of "Fin 10" "Fin 3" 10 3]
    by (simp add: dsub_def)
  have d: "binomial_coefficient_log (Fin 3000) (Fin 1000)
       = Fin (1000 * ln 2000 + (3000 + 1 / 2) * ln (3 / 2) + 1 / 36000 - 1000 - 1 / 24000
              - lgamma_real 1001)"
    using C3_binomial_coefficient_log_branches [of "Fin 10" "Fin 3" 3000 1000]
    by (simp add: dsub_def)
  from a b c d show ?thesis
    by blast
qed

text \<open>
  At \<open>N = n = 2000\<close> the first argument exceeds the threshold, yet the log-gamma form is
  returned (the asymptotic expansion is NaN there); at \<open>N = 1000\<close>, \<open>n = 0\<close> neither \<open>N\<close>
  nor \<open>N - n\<close> exceeds the threshold, yet the asymptotic expansion is returned.
\<close>

theorem C3_threshold_counterexample:
  "dless cutoff (Fin 2000)
   \<and> binomial_coefficient_log (Fin 2000) (Fin 2000) = Fin (- lgamma_real 1)
   \<and> bcl_lgamma_form (Fin 2000) (Fin 2000) = Fin (- lgamma_real 1)
   \<and> bcl_asymptotic_form (Fin 2000) (Fin 2000) = NaN
   \<and> \<not> dless cutoff (Fin 1000) \<and> \<not> dless cutoff (dsub (Fin 1000) (Fin 0))
   \<and> binomial_coefficient_log (Fin 1000) (Fin 0) = bcl_asymptotic_form (Fin 1000) (Fin 0)"
  by (simp add: binomial_coefficient_log_def bcl_lgamma_form_def bcl_asymptotic_form_def
      cutoff_def dsub_def signed_inf_def)

subsection \<open>binomial_log\<close>

lemma binomial_checks_pass:
  "0 \<le> n \<Longrightarrow> n \<le> N \<Longrightarrow> 0 \<le> t \<Longrightarrow> t \<le> 1 \<Longrightarrow>
   check_bounded_int n 0 N \<and> check_nonnegative_int N \<and> check_finite (Fin t)
   \<and> check_bounded (Fin t) (Fin 0) (Fin 1)"
  by (auto simp: check_bounded_int_def check_nonnegative_int_def check_finite_def
      check_bounded_def dle_def)

text \<open>
  Claim C10. With \<open>propto = true\<close> and a plain (non-differentiable) type for \<open>theta\<close>,
  \<open>binomial_log\<close> returns exactly 0 for every valid input: \<open>0 \<le> n \<le> N\<close> and \<open>theta\<close> finite
  in \<open>[0, 1]\<close>.
\<close>

theorem C10_binomial_log_propto_plain_is_zero:
  assumes "0 \<le> n" and "n \<le> N" and "0 \<le> t" and "t \<le> 1"
  shows "binomial_log True False n N (Fin t) = Inr (Fin 0)"
  using binomial_checks_pass [OF assms]
  by (simp add: binomial_log_def include_summand_def)

theorem C10_binomial_log_propto_plain_is_zero_witness:
  "(0::int) \<le> 3 \<and> (3::int) \<le> 10 \<and> (0::real) \<le> 1 / 4 \<and> (1::real) / 4 \<le> 1
   \<and> binomial_log True False 3 10 (Fin (1 / 4)) = Inr (Fin 0)"
  using C10_binomial_log_propto_plain_is_zero [of 3 10 "1 / 4"]
  by simp

lemma log1m_unit_returns:
  assumes "t \<le> 1"
  shows "\<exists>l. log1m (Fin t) = Inr l"
  using assms by (auto simp: log1m_def log1p_def)

text \<open>
  Claim C2, amended. For a differentiable type of \<open>theta\<close> and every valid input,
  \<open>0 \<le> n \<le> N\<close> with \<open>N\<close> at most 178956970 and \<open>theta\<close> finite in \<open>[0, 1]\<close>, both calls
  return, and the result with \<open>propto = false\<close> is the sum, in the addition of the program,
  of \<open>binomial_coefficient_log(N, n)\<close> and the result with \<open>propto = true\<close>: the two calls
  differ by that one summand, which does not depend on \<open>theta\<close>.
\<close>

theorem C2_binomial_log_propto_summand:
  assumes "0 \<le> n" and "n \<le> N" and "N \<le> 178956970" and "0 \<le> t" and "t \<le> 1"
  shows "\<exists>a b. binomial_log False True n N (Fin t) = Inr a
           \<and> binomial_log True True n N (Fin t) = Inr b
           \<and> a = dadd (binomial_coefficient_log_int N n) b"
proof -
  from assms have checks:
    "check_bounded_int n 0 N" "check_nonnegative_int N" "check_finite (Fin t)"
    "check_bounded (Fin t) (Fin 0) (Fin 1)"
    using binomial_checks_pass [of n N t] by auto
  obtain l where l: "log1m (Fin t) = Inr l"
    using log1m_unit_returns [OF assms(5)] by blast
  let ?X = "dadd (multiply_log (of_c_int n) (Fin t)) (dmul (of_c_int (N - n)) l)"
  have f: "binomial_log False True n N (Fin t)
      = Inr (dadd (dadd (Fin 0) (binomial_coefficient_log_int N n)) ?X)"
    using checks l by (simp add: binomial_log_def include_summand_def)
  have p: "binomial_log True True n N (Fin t) = Inr (dadd (Fin 0) ?X)"
    using checks l by (simp add: binomial_log_def include_summand_def)
  from f p show ?thesis
    by (simp add: dadd_zero_left)
qed

theorem C2_binomial_log_propto_summand_witness:
  "binomial_log False True 3 10 (Fin (1 / 4))
     = Inr (dadd (binomial_coefficient_log_int 10 3) (Fin (3 * ln (1 / 4) + 7 * ln (3 / 4))))
   \<and> binomial_log True True 3 10 (Fin (1 / 4)) = Inr (Fin (3 * ln (1 / 4) + 7 * ln (3 / 4)))"
  using C2_binomial_log_propto_summand [of 3 10 "1 / 4"]
  by (simp add: binomial_log_def include_summand_def of_c_int_def
      check_bounded_int_def check_nonnegative_int_def check_finite_def
      check_bounded_def dle_def log1m_def log1p_def multiply_log_def dadd_zero_left)

text \<open>
  For a plain type of \<open>theta\<close> the call with \<open>propto = true\<close> returns 0, and the difference is
  the whole log-mass: at \<open>n = 1\<close>, \<open>N = 1\<close>, \<open>theta = 1/2\<close> it exceeds the log binomial
  coefficient by \<open>ln (1/2)\<close>.
\<close>

theorem C2_plain_theta_counterexample:
  "binomial_log False False 1 1 (Fin (1 / 2)) = Inr (Fin (ln (1 / 2) - lgamma_real 1))
   \<and> binomial_log True False 1 1 (Fin (1 / 2)) = Inr (Fin 0)
   \<and> binomial_coefficient_log_int 1 1 = Fin (- lgamma_real 1)
   \<and> dsub (Fin (ln (1 / 2) - lgamma_real 1)) (Fin 0) \<noteq> binomial_coefficient_log_int 1 1"
  by (simp add: binomial_log_def include_summand_def of_c_int_def binomial_coefficient_log_int_def
      cutoff_def dsub_def check_bounded_int_def check_nonnegative_int_def check_finite_def
      check_bounded_def dle_def log1m_def log1p_def multiply_log_def)

subsection \<open>wishart_log\<close>

lemma lmgamma_loop_finite:
  "\<forall>j\<in>set js. 0 < x + (1 - real j) / 2 \<Longrightarrow>
   \<exists>v. fold (\<lambda>j result. dadd result (lgamma (dadd (Fin x) (ddiv (dsub (Fin 1) (Fin (real j))) (Fin 2)))))
         js (Fin r) = Fin v"
proof (induction js arbitrary: r)
  case Nil
  then show ?case by simp
next
  case (Cons j js)
  then have "0 < x + (1 - real j) / 2"
    by simp
  then have "lgamma (dadd (Fin x) (ddiv (dsub (Fin 1) (Fin (real j))) (Fin 2)))
      = Fin (lgamma_real (x + (1 - real j) / 2))"
    by (simp add: dsub_def)
  then show ?case
    using Cons.IH [of "r + lgamma_real (x + (1 - real j) / 2)"] Cons.prems by simp
qed

lemma lmgamma_finite:
  assumes "\<forall>j\<in>set [1..<Suc k]. 0 < x + (1 - real j) / 2"
  shows "\<exists>v. lmgamma k (Fin x) = Fin v"
  unfolding lmgamma_def LOG_PI_OVER_FOUR_def
  using lmgamma_loop_finite [OF assms] by simp

lemma unsigned_pred_pos:
  assumes "0 < k" and "k < 2 ^ 32"
  shows "unsigned_pred k = k - 1"
proof -
  have "k + 2 ^ 32 - 1 = (k - 1) + 2 ^ 32"
    using assms(1) by simp
  then have "unsigned_pred k = (k - 1) mod 2 ^ 32"
    unfolding unsigned_pred_def by (metis mod_add_self2)
  then show ?thesis
    using assms(2) by simp
qed

lemma unsigned_pred_zero: "unsigned_pred 0 = 2 ^ 32 - 1"
  by (simp add: unsigned_pred_def)

lemma wishart_log_rejects:
  assumes "rows W < 2 ^ 32"
    and "dless nu (Fin (real (rows W) - 1)) \<or> rows W \<noteq> cols W \<or> rows S \<noteq> rows W \<or> cols S \<noteq> cols W"
  shows "wishart_log la propto T_y T_dof T_scale W nu S = Inl domain_error"
proof (cases "dless nu (Fin (real (rows W) - 1))")
  case True
  have "\<not> check_greater_or_equal nu (Fin (real (unsigned_pred (rows W))))"
  proof (cases "rows W = 0")
    case z: True
    with True show ?thesis
      by (cases nu) (auto simp: check_greater_or_equal_def dle_def unsigned_pred_zero)
  next
    case False
    then have "real (unsigned_pred (rows W)) = real (rows W) - 1"
      using assms(1) by (simp add: unsigned_pred_pos of_nat_diff)
    with True show ?thesis
      by (cases nu) (auto simp: check_greater_or_equal_def dle_def)
  qed
  then show ?thesis
    using assms(1) by (simp add: wishart_log_def)
next
  case False
  with assms(2) have "rows W \<noteq> cols W \<or> rows S \<noteq> cols S \<or> rows W \<noteq> rows S"
    by auto
  then show ?thesis
    by (auto simp: wishart_log_def check_size_match_def Let_def)
qed

lemma wishart_log_identity_finite:
  assumes "0 < k" and "k + 1 < 2 ^ 32"
    and "determinant la (identity k) = Fin 1"
    and "is_fin (trace la (multiply la (inverse_mat la (identity k)) (identity k)))"
  shows "\<exists>v. wishart_log la propto T_y T_dof T_scale (identity k) (Fin (real k + 1)) (identity k)
            = Inr (Fin v)"
proof -
  have k32: "k mod 2 ^ 32 = k" "(k + 1) mod 2 ^ 32 = k + 1"
    using assms(2) by simp_all
  have pred: "real (unsigned_pred k) = real k - 1"
    using assms(1,2) by (simp add: unsigned_pred_pos of_nat_diff)
  have chk: "check_greater_or_equal (Fin (real k + 1)) (Fin (real (unsigned_pred k)))"
    by (simp add: check_greater_or_equal_def dle_def pred)
  have "\<forall>j\<in>set [1..<Suc k]. 0 < (1 / 2) * (real k + 1) + (1 - real j) / 2"
    by (auto simp: field_simps)
  then obtain g where g: "lmgamma k (Fin ((1 / 2) * (real k + 1))) = Fin g"
    using lmgamma_finite by blast
  obtain t where t: "trace la (multiply la (inverse_mat la (identity k)) (identity k)) = Fin t"
    using assms(4) by (cases "trace la (multiply la (inverse_mat la (identity k)) (identity k))") auto
  have ml: "multiply_log (Fin ((1 / 2) * (real k + 1))) (Fin 1) = Fin 0"
    by (simp add: multiply_log_def)
  show ?thesis
    using chk g t ml assms(3) k32
    by (simp add: wishart_log_def Let_def check_size_match_def identity_def
        NEG_LOG_TWO_OVER_TWO_def dsub_def include_summand_def)
qed

text \<open>
  Claim C5. \<open>wishart_log\<close> returns a domain error, with no density term computed, when
  \<open>nu < k - 1\<close>, when \<open>W\<close> is not square, or when the dimensions of \<open>W\<close> and \<open>S\<close> differ
  (\<open>k\<close> the number of rows of \<open>W\<close>, below \<open>2^32\<close>). It returns a finite value for
  \<open>nu = k + 1\<close> and \<open>S = W = identity(k)\<close> with \<open>k \<ge> 1\<close>, for kernels that give the
  identity determinant 1 and a finite trace of \<open>inverse(S) * W\<close>.
\<close>

theorem C5_wishart_log_domain:
  "(rows W < 2 ^ 32
      \<and> (dless nu (Fin (real (rows W) - 1)) \<or> rows W \<noteq> cols W
           \<or> rows S \<noteq> rows W \<or> cols S \<noteq> cols W)
      \<longrightarrow> wishart_log la propto T_y T_dof T_scale W nu S = Inl domain_error)
   \<and> (0 < k \<and> k + 1 < 2 ^ 32 \<and> determinant la (identity k) = Fin 1
        \<and> is_fin (trace la (multiply la (inverse_mat la (identity k)) (identity k)))
      \<longrightarrow> (\<exists>v. wishart_log la propto T_y T_dof T_scale (identity k) (Fin (real k + 1)) (identity k)
                = Inr (Fin v)))"
  using wishart_log_rejects [of W nu S la propto T_y T_dof T_scale]
    wishart_log_identity_finite [of k la propto T_y T_dof T_scale]
  by blast

theorem C5_wishart_log_domain_witness:
  "wishart_log exact_linalg False False False False (identity 3) (Fin 1) (identity 3)
     = Inl domain_error
   \<and> wishart_log exact_linalg False False False False
       \<lparr>rows = 2, cols = 3, coeff = (\<lambda>i j. Fin 1)\<rparr> (Fin 5) (identity 2) = Inl domain_error
   \<and> wishart_log exact_linalg False False False False (identity 2) (Fin 5) (identity 3)
     = Inl domain_error
   \<and> (\<exists>v. wishart_log exact_linalg False False False False (identity 2) (Fin 3) (identity 2)
            = Inr (Fin v))"
proof -
  have a: "wishart_log exact_linalg False False False False (identity 3) (Fin 1) (identity 3)
     = Inl domain_error"
    using C5_wishart_log_domain [where W = "identity 3" and nu = "Fin 1" and S = "identity 3"
        and la = exact_linalg and k = 2 and propto = False and T_y = False and T_dof = False
        and T_scale = False]
    by (simp add: identity_def)
  have b: "wishart_log exact_linalg False False False False
       \<lparr>rows = 2, cols = 3, coeff = (\<lambda>i j. Fin 1)\<rparr> (Fin 5) (identity 2) = Inl domain_error"
    using C5_wishart_log_domain [where W = "\<lparr>rows = 2, cols = 3, coeff = (\<lambda>i j. Fin 1)\<rparr>"
        and nu = "Fin 5" and S = "identity 2"
        and la = exact_linalg and k = 2 and propto = False and T_y = False and T_dof = False
        and T_scale = False]
    by (simp add: identity_def)
  have c: "wishart_log exact_linalg False False False False (identity 2) (Fin 5) (identity 3)
     = Inl domain_error"
    using C5_wishart_log_domain [where W = "identity 2" and nu = "Fin 5" and S = "identity 3"
        and la = exact_linalg and k = 2 and propto = False and T_y = False and T_dof = False
        and T_scale = False]
    by (simp add: identity_def)
  have h1: "determinant exact_linalg (identity 2) = Fin 1"
    by (simp add: exact_linalg_def identity_def minor_coeff_def numeral_2_eq_2)
  have h2: "is_fin (trace exact_linalg
      (multiply exact_linalg (inverse_mat exact_linalg (identity 2)) (identity 2)))"
    by (simp add: exact_linalg_def identity_def minor_coeff_def numeral_2_eq_2)
  have d: "\<exists>v. wishart_log exact_linalg False False False False (identity 2) (Fin 3) (identity 2)
            = Inr (Fin v)"
    using h1 h2
      C5_wishart_log_domain [where W = "identity 2" and nu = "Fin 3" and S = "identity 2"
        and la = exact_linalg and k = 2 and propto = False and T_y = False and T_dof = False
        and T_scale = False]
    by simp
  from a b c d show ?thesis
    by blast
qed

text \<open>
  Claim C4. At the \<open>1 \<times> 1\<close> input \<open>W = (-1)\<close>, \<open>nu = 2\<close>, \<open>S = (1)\<close>, which passes every check,
  the trace of \<open>inverse(S) * W\<close> is \<open>-1\<close> and \<open>wishart_log\<close> with \<open>propto = false\<close> returns
  \<open>- ln 2 - lgamma(1) - 1/2\<close>: the trace term enters as \<open>- 1/2 * \<bar>-1\<bar>\<close>, not as
  \<open>- 1/2 * (-1)\<close>, which would give \<open>- ln 2 - lgamma(1) + 1/2\<close>.
\<close>

theorem C4_wishart_log_trace_absolute:
  "trace exact_linalg
     (multiply exact_linalg (inverse_mat exact_linalg (identity 1))
        \<lparr>rows = 1, cols = 1, coeff = (\<lambda>i j. Fin (- 1))\<rparr>) = Fin (- 1)
   \<and> wishart_log exact_linalg False False False False
        \<lparr>rows = 1, cols = 1, coeff = (\<lambda>i j. Fin (- 1))\<rparr> (Fin 2) (identity 1)
       = Inr (Fin (- ln 2 - lgamma_real 1 - 1 / 2))
   \<and> wishart_log exact_linalg False False False False
        \<lparr>rows = 1, cols = 1, coeff = (\<lambda>i j. Fin (- 1))\<rparr> (Fin 2) (identity 1)
       \<noteq> Inr (Fin (- ln 2 - lgamma_real 1 + 1 / 2))"
  by (simp add: wishart_log_def Let_def check_size_match_def identity_def
      NEG_LOG_TWO_OVER_TWO_def LOG_PI_OVER_FOUR_def dsub_def include_summand_def
      check_greater_or_equal_def dle_def unsigned_pred_def lmgamma_def multiply_log_def
      exact_linalg_def minor_coeff_def)

end
